theory Spec2Isabelle
  imports Complex_Main "HOL-Library.Word"
begin

unbundle bit_operations_syntax

section \<open>Bytes, slices and struct.unpack\<close>

text \<open>
  A Python \<open>bytes\<close> object is a list of 8-bit words. Python integers are unbounded and
  every integer the decoder unpacks is unsigned, so unpacked values are \<open>nat\<close>.
  Exceptions are values of the type \<open>error\<close>, one constructor for each exception class
  the modelled code can raise, and a fallible function returns \<open>error + 'a\<close>.
\<close>

type_synonym byte = "8 word"
type_synonym bytes = "byte list"

datatype error =
    StructError
  | NameError
  | AttributeError
  | TypeError
  | ZlibError
  | BinasciiError
  | UnicodeDecodeError
  | JSONDecodeError
  | TransportError

text \<open>\<open>bin[start:end]\<close> for \<open>0 \<le> start\<close>: the slice is cut at the end of the buffer.\<close>

definition slice :: "bytes \<Rightarrow> nat \<Rightarrow> nat \<Rightarrow> bytes" where
  "slice bin start end = take (end - start) (drop start bin)"

datatype byte_format = FmtI | FmtH

fun calcsize :: "byte_format \<Rightarrow> nat" where
  "calcsize FmtI = 4"
| "calcsize FmtH = 2"

text \<open>The value of a byte string read as a big-endian unsigned integer.\<close>

definition be_value :: "bytes \<Rightarrow> nat" where
  "be_value bs = foldl (\<lambda>a b. a * 256 + unat b) 0 bs"

text \<open>
  \<open>struct.unpack(">" + byte_format, buf)[0]\<close>: raises \<open>struct.error\<close> unless the buffer
  has exactly the size of the format.
\<close>

definition struct_unpack :: "byte_format \<Rightarrow> bytes \<Rightarrow> error + nat" where
  "struct_unpack fmt buf =
     (if length buf = calcsize fmt then Inr (be_value buf) else Inl StructError)"

definition unpack_int :: "bytes \<Rightarrow> nat \<Rightarrow> nat \<Rightarrow> byte_format \<Rightarrow> error + nat" where
  "unpack_int bin start end fmt = struct_unpack fmt (slice bin start end)"

section \<open>Splitting a frame into packets\<close>

text \<open>
  The loop of \<open>_split_packets\<close>: \<open>n\<close> iterations remain, \<open>j\<close> is the read offset and
  \<open>packets\<close> the list built so far.
\<close>

fun split_loop :: "bytes \<Rightarrow> nat \<Rightarrow> nat \<Rightarrow> bytes list \<Rightarrow> error + bytes list" where
  "split_loop bin 0 j packets = Inr packets"
| "split_loop bin (Suc n) j packets =
     (case unpack_int bin j (j + 2) FmtH of
        Inl e \<Rightarrow> Inl e
      | Inr packet_length \<Rightarrow>
          split_loop bin n (j + 2 + packet_length)
            (packets @ [slice bin (j + 2) (j + 2 + packet_length)]))"

definition split_packets :: "bytes \<Rightarrow> error + bytes list" where
  "split_packets bin =
     (if length bin < 2 then Inr []
      else case unpack_int bin 0 2 FmtH of
        Inl e \<Rightarrow> Inl e
      | Inr number_of_packets \<Rightarrow> split_loop bin number_of_packets 2 [])"

text \<open>
  The wire format as the specification words it: a big-endian 16-bit packet count, then
  for each packet a big-endian 16-bit length followed by the packet's bytes.
\<close>

definition be16 :: "nat \<Rightarrow> bytes" where
  "be16 n = [of_nat (n div 256), of_nat (n mod 256)]"

definition spec_entry :: "bytes \<Rightarrow> bytes" where
  "spec_entry p = be16 (length p) @ p"

definition spec_frame :: "bytes list \<Rightarrow> bytes" where
  "spec_frame ps = be16 (length ps) @ concat (map spec_entry ps)"

text \<open>The offset of the length prefix of packet \<open>k\<close> in a frame that carries \<open>ps\<close>.\<close>

definition entry_offset :: "bytes list \<Rightarrow> nat \<Rightarrow> nat" where
  "entry_offset ps k = 2 + sum_list (map (\<lambda>p. 2 + length p) (take k ps))"

section \<open>Decoding one packet\<close>

definition EXCHANGE_MAP :: "string \<rightharpoonup> nat" where
  "EXCHANGE_MAP = map_of
     [(''nse'', 1), (''nfo'', 2), (''cds'', 3), (''bse'', 4), (''bfo'', 5),
      (''bsecds'', 6), (''mcx'', 7), (''mcxsx'', 8), (''indices'', 9)]"

text \<open>
  The locals computed at the head of the per-packet loop. The divisor is a Python
  float; here it is a real number and the quotient \<open>raw / divisor\<close> is kept exact, where
  Python rounds it to the nearest double.
\<close>

record packet_head =
  instrument_token :: nat
  segment :: nat
  divisor :: real
  tradable :: bool

definition packet_header :: "bytes \<Rightarrow> error + packet_head" where
  "packet_header packet =
     (case unpack_int packet 0 4 FmtI of
        Inl e \<Rightarrow> Inl e
      | Inr tok \<Rightarrow>
          (let seg = tok AND 255 in
           Inr \<lparr>instrument_token = tok,
                segment = seg,
                divisor = (if seg = the (EXCHANGE_MAP ''cds'') then 10000000 else 100),
                tradable = (if seg = the (EXCHANGE_MAP ''indices'') then False else True)\<rparr>))"

text \<open>
  \<open>datetime.fromtimestamp(self._unpack_int(packet, a, b))\<close> inside \<open>try ... except
  Exception\<close>: any failure gives \<open>None\<close>. A datetime is represented by its epoch seconds.
\<close>

definition try_timestamp :: "bytes \<Rightarrow> nat \<Rightarrow> nat \<Rightarrow> nat option" where
  "try_timestamp packet a b =
     (case unpack_int packet a b FmtI of Inl e \<Rightarrow> None | Inr t \<Rightarrow> Some t)"

record depth_entry =
  quantity :: nat
  price :: real
  orders :: nat

record depth =
  buy :: "depth_entry list"
  sell :: "depth_entry list"

text \<open>\<open>range(start, stop, step)\<close> for a positive step, and \<open>enumerate\<close>.\<close>

definition py_range :: "nat \<Rightarrow> nat \<Rightarrow> nat \<Rightarrow> nat list" where
  "py_range start stop step =
     map (\<lambda>k. start + k * step) [0 ..< (stop - start + step - 1) div step]"

definition enumerate_list :: "'a list \<Rightarrow> (nat \<times> 'a) list" where
  "enumerate_list xs = zip [0 ..< length xs] xs"

text \<open>The dictionary literal built for the depth slot at offset \<open>p\<close>.\<close>

definition depth_entry_at :: "bytes \<Rightarrow> real \<Rightarrow> nat \<Rightarrow> error + depth_entry" where
  "depth_entry_at packet dv p =
     (case unpack_int packet p (p + 4) FmtI of
        Inl e \<Rightarrow> Inl e
      | Inr q \<Rightarrow>
     (case unpack_int packet (p + 4) (p + 8) FmtI of
        Inl e \<Rightarrow> Inl e
      | Inr raw \<Rightarrow>
     (case unpack_int packet (p + 8) (p + 10) FmtH of
        Inl e \<Rightarrow> Inl e
      | Inr n \<Rightarrow> Inr \<lparr>quantity = q, price = real raw / dv, orders = n\<rparr>)))"

text \<open>The entry that \<open>depth_entry_at\<close> returns when its three reads succeed.\<close>

definition entry_of :: "bytes \<Rightarrow> real \<Rightarrow> nat \<Rightarrow> depth_entry" where
  "entry_of packet dv p =
     \<lparr>quantity = be_value (slice packet p (p + 4)),
      price = real (be_value (slice packet (p + 4) (p + 8))) / dv,
      orders = be_value (slice packet (p + 8) (p + 10))\<rparr>"

fun depth_loop :: "bytes \<Rightarrow> real \<Rightarrow> (nat \<times> nat) list \<Rightarrow> depth \<Rightarrow> error + depth" where
  "depth_loop packet dv [] dp = Inr dp"
| "depth_loop packet dv ((i, p) # rest) dp =
     (case depth_entry_at packet dv p of
        Inl e \<Rightarrow> Inl e
      | Inr en \<Rightarrow>
          depth_loop packet dv rest
            (if i \<ge> 5 then dp\<lparr>sell := sell dp @ [en]\<rparr> else dp\<lparr>buy := buy dp @ [en]\<rparr>))"

definition market_depth :: "bytes \<Rightarrow> real \<Rightarrow> error + depth" where
  "market_depth packet dv =
     depth_loop packet dv (enumerate_list (py_range 64 (length packet) 12))
       \<lparr>buy = [], sell = []\<rparr>"

section \<open>The binary tick decoder\<close>

text \<open>
  The record \<open>d\<close> that \<open>_parse_binary\<close> writes is a dictionary. The function never
  assigns the name \<open>d\<close>, so Python resolves it in the module's globals at each use and
  raises \<open>NameError\<close> when it is not bound there. The binding is an argument of the
  model: \<open>None\<close> is an unbound name, \<open>Some d\<close> a dictionary bound at module level.
\<close>

datatype pyval = VInt nat | VTime "nat option" | VDepth depth

type_synonym tick = "string \<rightharpoonup> pyval"

text \<open>
  The body of the per-packet loop. In an assignment \<open>d[k] = rhs\<close> the right-hand side
  is evaluated before \<open>d\<close> is looked up; the right-hand side of the first assignment is
  a local, so an unbound \<open>d\<close> fails there.
\<close>

definition parse_packet :: "tick option \<Rightarrow> bytes \<Rightarrow> error + tick" where
  "parse_packet g packet =
     (case packet_header packet of
        Inl e \<Rightarrow> Inl e
      | Inr h \<Rightarrow>
     (let last_trade_time = try_timestamp packet 44 48;
          timestamp = try_timestamp packet 60 64
      in case g of
        None \<Rightarrow> Inl NameError
      | Some d0 \<Rightarrow>
     (let d1 = d0(''last_trade_time'' \<mapsto> VTime last_trade_time) in
      case unpack_int packet 48 52 FmtI of
        Inl e \<Rightarrow> Inl e
      | Inr oi \<Rightarrow>
     (let d2 = d1(''oi'' \<mapsto> VInt oi) in
      case unpack_int packet 52 56 FmtI of
        Inl e \<Rightarrow> Inl e
      | Inr hi \<Rightarrow>
     (let d3 = d2(''oi_day_high'' \<mapsto> VInt hi) in
      case unpack_int packet 56 60 FmtI of
        Inl e \<Rightarrow> Inl e
      | Inr lo \<Rightarrow>
     (let d4 = d3(''oi_day_low'' \<mapsto> VInt lo, ''timestamp'' \<mapsto> VTime timestamp) in
      case market_depth packet (divisor h) of
        Inl e \<Rightarrow> Inl e
      | Inr dp \<Rightarrow> Inr (d4(''depth'' \<mapsto> VDepth dp))))))))"

text \<open>The loop over the packets; the dictionary is one object, updated in place.\<close>

fun packets_loop :: "tick option \<Rightarrow> bytes list \<Rightarrow> error + tick option" where
  "packets_loop g [] = Inr g"
| "packets_loop g (packet # rest) =
     (case parse_packet g packet of
        Inl e \<Rightarrow> Inl e
      | Inr d \<Rightarrow> packets_loop (Some d) rest)"

text \<open>\<open>data.append(d)\<close> stands after the loop, and \<open>data\<close> is empty until then.\<close>

definition parse_binary_in :: "tick option \<Rightarrow> bytes \<Rightarrow> error + tick list" where
  "parse_binary_in g bin =
     (case split_packets bin of
        Inl e \<Rightarrow> Inl e
      | Inr packets \<Rightarrow>
     (case packets_loop g packets of
        Inl e \<Rightarrow> Inl e
      | Inr g' \<Rightarrow>
     (case g' of
        None \<Rightarrow> Inl NameError
      | Some d \<Rightarrow> Inr ([] @ [d]))))"

text \<open>The module binds no global \<open>d\<close>.\<close>

definition module_d :: "tick option" where
  "module_d = None"

definition parse_binary :: "bytes \<Rightarrow> error + tick list" where
  "parse_binary bin = parse_binary_in module_d bin"

section \<open>Keepalive: pong handling and the pong watchdog\<close>

text \<open>
  The clock reading \<open>time.time()\<close> is an argument of each operation. Times are real
  numbers. A pending \<open>callLater\<close> is represented by its delay. Debug logging has no
  effect on the state and is left out.
\<close>

definition PING_INTERVAL :: real where
  "PING_INTERVAL = 2.5"

record protocol =
  last_pong_time :: "real option"
  last_ping_time :: "real option"
  next_ping :: "real option"
  next_pong_check :: "real option"

text \<open>The class attributes a new protocol object starts with.\<close>

definition new_protocol :: protocol where
  "new_protocol = \<lparr>last_pong_time = None, last_ping_time = None,
                     next_ping = None, next_pong_check = None\<rparr>"

text \<open>Python's truth value of \<open>self._last_pong_time\<close>: \<open>None\<close> and \<open>0.0\<close> are false.\<close>

definition truthy :: "real option \<Rightarrow> bool" where
  "truthy v = (case v of None \<Rightarrow> False | Some t \<Rightarrow> t \<noteq> 0)"

definition onPong :: "real \<Rightarrow> protocol \<Rightarrow> protocol" where
  "onPong now st = st\<lparr>last_pong_time := Some now\<rparr>"

text \<open>
  \<open>_loop_pong_check\<close>: the first component tells whether \<open>dropConnection(abort=True)\<close>
  was called.
\<close>

definition loop_pong_check :: "real \<Rightarrow> protocol \<Rightarrow> bool \<times> protocol" where
  "loop_pong_check now st =
     (let dropped =
        (if truthy (last_pong_time st) then
           (let last_pong_diff = now - the (last_pong_time st) in
            if last_pong_diff > 2 * PING_INTERVAL then True else False)
         else False)
      in (dropped, st\<lparr>next_pong_check := Some PING_INTERVAL\<rparr>))"

section \<open>The client: subscription requests\<close>

text \<open>
  A request is the dictionary that \<open>send_request\<close> serialises with \<open>json.dumps\<close>; the
  frame is identified with it. The connection \<open>self.ws\<close> belongs to the WebSocket
  library and its behaviour is an argument of the model: for \<open>sendMessage\<close> on a frame
  and for \<open>sendClose\<close> on a code and a reason it gives the exception the call raises,
  or \<open>None\<close> when the call goes through. The reason that \<open>send_request\<close> passes is the
  message of the exception it handles and is identified with that exception. User
  callbacks are slots that are set or not; a call is recorded as an action.
\<close>

record request =
  req_task :: string
  req_channel :: string
  req_token :: string
  req_user :: string
  req_acctid :: string

record connection =
  sendMessage_raises :: "request \<Rightarrow> error option"
  sendClose_raises :: "nat option \<Rightarrow> error option \<Rightarrow> error option"

record websocket =
  task :: string
  feed_token :: string
  client_code :: string
  ws :: "connection option"
  on_message :: bool
  on_ticks :: bool

datatype 'a outcome = Returned 'a | Raised error

datatype action =
    SendMessage request
  | SendClose "nat option" "error option"
  | StartHeartBeat
  | Print string

definition cn_request :: "websocket \<Rightarrow> request" where
  "cn_request st =
     \<lparr>req_task = ''cn'', req_channel = [], req_token = feed_token st,
      req_user = client_code st, req_acctid = client_code st\<rparr>"

definition task_request :: "websocket \<Rightarrow> string \<Rightarrow> request" where
  "task_request st strwatchlistscrips =
     \<lparr>req_task = task st, req_channel = strwatchlistscrips, req_token = feed_token st,
      req_user = client_code st, req_acctid = client_code st\<rparr>"

text \<open>\<open>self.ws.sendMessage(...)\<close>: an attribute of \<open>None\<close> raises \<open>AttributeError\<close>.\<close>

definition sendMessage :: "websocket \<Rightarrow> request \<Rightarrow> error option" where
  "sendMessage st r =
     (case ws st of None \<Rightarrow> Some AttributeError | Some c \<Rightarrow> sendMessage_raises c r)"

text \<open>
  \<open>_close(code, reason)\<close>: with a connection it calls \<open>self.ws.sendClose(code, reason)\<close>,
  with none it does nothing. The result is the exception the call raises, if any, and
  the close call that went through.
\<close>

definition close_ws ::
  "websocket \<Rightarrow> nat option \<Rightarrow> error option \<Rightarrow> error option \<times> action list" where
  "close_ws st code reason =
     (case ws st of
        None \<Rightarrow> (None, [])
      | Some c \<Rightarrow>
          (case sendClose_raises c code reason of
             Some e \<Rightarrow> (Some e, [])
           | None \<Rightarrow> (None, [SendClose code reason])))"

text \<open>
  The clause \<open>except Exception as e\<close>: it calls \<open>self._close(reason=...)\<close>, with no code,
  and then re-raises \<open>e\<close>. An exception raised by \<open>_close\<close> leaves the clause in place of
  \<open>e\<close>, and the re-raise is not reached. \<open>sent\<close> lists what was done before.
\<close>

definition except_clause ::
  "websocket \<Rightarrow> error \<Rightarrow> action list \<Rightarrow> bool option outcome \<times> action list" where
  "except_clause st e sent =
     (case close_ws st None (Some e) of
        (Some e', tr) \<Rightarrow> (Raised e', sent @ tr)
      | (None, tr) \<Rightarrow> (Raised e, sent @ tr))"

definition invalid_task_message :: string where
  "invalid_task_message =
     ''The task entered is invalid, Please enter correct task(mw,sfi,dp) ''"

text \<open>
  \<open>send_request\<close> returns \<open>True\<close> or, by falling off the end, \<open>None\<close>; the second
  component lists what it did, in order.
\<close>

definition send_request :: "websocket \<Rightarrow> string \<Rightarrow> bool option outcome \<times> action list" where
  "send_request st token =
     (if task st \<in> set [''mw'', ''sfi'', ''dp''] then
        (case sendMessage st (cn_request st) of
           Some e \<Rightarrow> except_clause st e []
         | None \<Rightarrow>
        (case sendMessage st (task_request st token) of
           Some e \<Rightarrow> except_clause st e [SendMessage (cn_request st)]
         | None \<Rightarrow>
             (Returned (Some True),
              [SendMessage (cn_request st), SendMessage (task_request st token),
               StartHeartBeat])))
      else (Returned None, [Print invalid_task_message]))"

fun frames_sent :: "action list \<Rightarrow> request list" where
  "frames_sent [] = []"
| "frames_sent (SendMessage r # as) = r # frames_sent as"
| "frames_sent (a # as) = frames_sent as"

section \<open>The client: text frames\<close>

text \<open>
  The codecs are library functions and are arguments of the model. A Python \<open>str\<close> is
  a list of code points. \<open>is_ValueError\<close> tells which exception classes the clause
  \<open>except ValueError\<close> catches: \<open>binascii.Error\<close>, \<open>UnicodeDecodeError\<close> and
  \<open>json.JSONDecodeError\<close> derive from \<open>ValueError\<close>, \<open>zlib.error\<close> derives from
  \<open>Exception\<close> only.
\<close>

type_synonym pystr = "nat list"

record 'j library =
  utf8_decode :: "bytes \<Rightarrow> error + pystr"
  utf8_encode :: "pystr \<Rightarrow> bytes"
  b64decode :: "pystr \<Rightarrow> error + bytes"
  zlib_decompress :: "bytes \<Rightarrow> error + bytes"
  json_loads :: "pystr \<Rightarrow> error + 'j"
  json_dumps :: "'j \<Rightarrow> pystr"

fun is_ValueError :: "error \<Rightarrow> bool" where
  "is_ValueError BinasciiError = True"
| "is_ValueError UnicodeDecodeError = True"
| "is_ValueError JSONDecodeError = True"
| "is_ValueError e = False"

datatype 'j event =
    OnMessageCb bytes bool
  | DecodeBinary bytes
  | OnTicksBinary "tick list"
  | DecodeText bytes
  | OnTicksText 'j

text \<open>\<open>s.replace("'", '"')\<close>: code point 39 becomes code point 34.\<close>

definition replace_quotes :: "pystr \<Rightarrow> pystr" where
  "replace_quotes s = map (\<lambda>c. if c = 39 then 34 else c) s"

text \<open>The three statements inside \<open>try\<close>.\<close>

definition decode_text :: "'j library \<Rightarrow> bytes \<Rightarrow> error + 'j" where
  "decode_text lib data =
     (case zlib_decompress lib data of
        Inl e \<Rightarrow> Inl e
      | Inr raw \<Rightarrow>
     (case utf8_decode lib raw of
        Inl e \<Rightarrow> Inl e
      | Inr s \<Rightarrow>
     (case utf8_decode lib (utf8_encode lib s) of
        Inl e \<Rightarrow> Inl e
      | Inr s' \<Rightarrow>
     (case json_loads lib (replace_quotes s') of
        Inl e \<Rightarrow> Inl e
      | Inr j \<Rightarrow> json_loads lib (json_dumps lib j)))))"

text \<open>
  \<open>_parse_text_message\<close>. \<open>py3_bytes\<close> is the test \<open>not six.PY2 and type(payload) ==
  bytes\<close>; when it fails \<open>data\<close> is unbound at its first use, inside \<open>try\<close>, and the
  \<open>UnboundLocalError\<close> (a \<open>NameError\<close>) is not caught. The call of an unset
  \<open>on_ticks\<close> raises \<open>TypeError\<close>.
\<close>

definition parse_text_message ::
  "'j library \<Rightarrow> websocket \<Rightarrow> bool \<Rightarrow> bytes \<Rightarrow> unit outcome \<times> 'j event list" where
  "parse_text_message lib st py3_bytes payload =
     (if py3_bytes then
        (case utf8_decode lib payload of
           Inl e \<Rightarrow> (Raised e, [])
         | Inr text \<Rightarrow>
        (case b64decode lib text of
           Inl e \<Rightarrow> (Raised e, [])
         | Inr data \<Rightarrow>
        (case decode_text lib data of
           Inl e \<Rightarrow> (if is_ValueError e then (Returned (), []) else (Raised e, []))
         | Inr j \<Rightarrow>
             (if on_ticks st then (Returned (), [OnTicksText j])
              else (Raised TypeError, [])))))
      else (Raised NameError, []))"

section \<open>The client: dispatching inbound frames\<close>

definition on_message_handler ::
  "'j library \<Rightarrow> websocket \<Rightarrow> bool \<Rightarrow> bytes \<Rightarrow> bool \<Rightarrow> unit outcome \<times> 'j event list" where
  "on_message_handler lib st py3_bytes payload is_binary =
     (let tr0 = (if on_message st then [OnMessageCb payload is_binary] else []);
          step =
            (if on_ticks st \<and> is_binary \<and> length payload > 4 then
               (case parse_binary payload of
                  Inl e \<Rightarrow> (Raised e, [DecodeBinary payload])
                | Inr ticks \<Rightarrow> (Returned (), [DecodeBinary payload, OnTicksBinary ticks]))
             else (Returned (), []))
      in case step of
           (Raised e, tr1) \<Rightarrow> (Raised e, tr0 @ tr1)
         | (Returned u, tr1) \<Rightarrow>
             (if \<not> is_binary then
                (case parse_text_message lib st py3_bytes payload of
                   (r, tr2) \<Rightarrow> (r, tr0 @ tr1 @ [DecodeText payload] @ tr2))
              else (Returned (), tr0 @ tr1)))"
section \<open>Facts about unpacking and slicing\<close>

lemma length_slice: "length (slice bin s e) = min (e - s) (length bin - s)"
  by (simp add: slice_def)

lemma unpack_int_eq:
  "unpack_int bin s e fmt =
     (if min (e - s) (length bin - s) = calcsize fmt then Inr (be_value (slice bin s e))
      else Inl StructError)"
  by (simp add: unpack_int_def struct_unpack_def length_slice)

lemma unpack_int_error: "unpack_int bin s e fmt = Inl err \<Longrightarrow> err = StructError"
  by (simp add: unpack_int_def struct_unpack_def split: if_splits)

lemma be_value_pair: "be_value [a, b] = unat a * 256 + unat b"
  by (simp add: be_value_def)


lemma be_value_zeros: "be_value (replicate n 0) = 0"
  by (induction n) (simp_all add: be_value_def)

section \<open>The splitter\<close>

lemma split_loop_error: "split_loop bin n j acc = Inl err \<Longrightarrow> err = StructError"
  by (induction n arbitrary: j acc) (auto split: sum.splits dest: unpack_int_error)

lemma split_packets_error: "split_packets bin = Inl err \<Longrightarrow> err = StructError"
  by (auto simp add: split_packets_def split: if_splits sum.splits
        dest: unpack_int_error split_loop_error)

lemma be_value_be16: "n < 65536 \<Longrightarrow> be_value (be16 n) = n"
proof -
  assume n: "n < 65536"
  then have "n div 256 < 256" by simp
  then have "unat (of_nat (n div 256) :: byte) = n div 256"
    by (simp add: unat_of_nat)
  moreover have "unat (of_nat (n mod 256) :: byte) = n mod 256"
    by (simp add: unat_of_nat)
  ultimately show ?thesis by (simp add: be16_def be_value_pair)
qed

lemma length_be16: "length (be16 n) = 2"
  by (simp add: be16_def)

lemma slice_mid: "slice (pre @ xs @ rest) (length pre) (length pre + length xs) = xs"
  by (simp add: slice_def)

lemma unpack_prefix:
  assumes "n < 65536"
  shows "unpack_int (pre @ be16 n @ rest) (length pre) (length pre + 2) FmtH = Inr n"
proof -
  have "slice (pre @ be16 n @ rest) (length pre) (length pre + length (be16 n)) = be16 n"
    by (rule slice_mid)
  then have "slice (pre @ be16 n @ rest) (length pre) (length pre + 2) = be16 n"
    by (simp add: length_be16)
  with assms show ?thesis
    by (simp add: unpack_int_def struct_unpack_def length_be16 be_value_be16)
qed

lemma slice_payload:
  "slice (pre @ be16 n @ p @ rest) (length pre + 2) (length pre + 2 + length p) = p"
proof -
  have "slice ((pre @ be16 n) @ p @ rest) (length (pre @ be16 n))
          (length (pre @ be16 n) + length p) = p"
    by (rule slice_mid)
  then show ?thesis by (simp add: length_be16)
qed

text \<open>
  The loop invariant: started at the first length prefix of the entries of \<open>ps\<close>, with
  \<open>length ps\<close> iterations to go, the loop appends exactly \<open>ps\<close>.
\<close>

lemma split_loop_spec:
  assumes "\<forall>p \<in> set ps. length p < 65536"
  shows "split_loop (pre @ concat (map spec_entry ps) @ rest) (length ps) (length pre) acc
           = Inr (acc @ ps)"
  using assms
proof (induction ps arbitrary: pre acc)
  case Nil
  then show ?case by simp
next
  case (Cons p ps)
  let ?tail = "concat (map spec_entry ps) @ rest"
  let ?bin = "pre @ be16 (length p) @ p @ ?tail"
  have bin: "pre @ concat (map spec_entry (p # ps)) @ rest = ?bin"
    by (simp add: spec_entry_def)
  have len: "length p < 65536" using Cons.prems by simp
  have u: "unpack_int ?bin (length pre) (length pre + 2) FmtH = Inr (length p)"
    using len by (rule unpack_prefix)
  have s: "slice ?bin (length pre + 2) (length pre + 2 + length p) = p"
    by (rule slice_payload)
  have ih: "split_loop ((pre @ be16 (length p) @ p) @ ?tail) (length ps)
              (length (pre @ be16 (length p) @ p)) (acc @ [p]) = Inr ((acc @ [p]) @ ps)"
    using Cons.prems by (intro Cons.IH) simp
  have l: "length (pre @ be16 (length p) @ p) = length pre + 2 + length p"
    by (simp add: length_be16)
  have step: "split_loop ?bin (Suc (length ps)) (length pre) acc
               = split_loop ?bin (length ps) (length pre + 2 + length p) (acc @ [p])"
    by (simp only: split_loop.simps u s sum.case)
  have "split_loop ?bin (length ps) (length pre + 2 + length p) (acc @ [p])
          = Inr ((acc @ [p]) @ ps)"
    using ih unfolding l by (simp only: append_assoc)
  with step show ?case
    unfolding bin by simp
qed

lemma length_spec_frame:
  "length (spec_frame ps) = 2 + 2 * length ps + sum_list (map length ps)"
proof -
  have "length (concat (map spec_entry ps)) = 2 * length ps + sum_list (map length ps)"
    by (induction ps) (simp_all add: spec_entry_def length_be16)
  then show ?thesis by (simp add: spec_frame_def length_be16)
qed

lemma spec_frame_count:
  assumes "length ps < 65536"
  shows "unpack_int (spec_frame ps) 0 2 FmtH = Inr (length ps)"
proof -
  have "length ([] :: bytes) + 2 = 2" by simp
  with unpack_prefix [OF assms, of "[]" "concat (map spec_entry ps)"]
  show ?thesis unfolding spec_frame_def by (simp only: append_Nil list.size)
qed

lemma split_packets_spec_frame:
  assumes "length ps < 65536" and "\<forall>p \<in> set ps. length p < 65536"
  shows "split_packets (spec_frame ps) = Inr ps"
proof -
  have l: "split_loop (spec_frame ps) (length ps) 2 [] = Inr ps"
    using split_loop_spec [OF assms(2), of "be16 (length ps)" "[]" "[]"]
    by (simp add: length_be16 spec_frame_def)
  have n: "\<not> length (spec_frame ps) < 2"
    by (simp add: length_spec_frame)
  have "split_packets (spec_frame ps) =
          (case unpack_int (spec_frame ps) 0 2 FmtH of
             Inl e \<Rightarrow> Inl e
           | Inr number_of_packets \<Rightarrow> split_loop (spec_frame ps) number_of_packets 2 [])"
    using n by (simp only: split_packets_def if_False)
  also have "\<dots> = Inr ps"
    by (simp only: spec_frame_count [OF assms(1)] l sum.case)
  finally show ?thesis .
qed

lemma spec_frame_split_at:
  assumes "k < length ps"
  shows "\<exists>pre rest. spec_frame ps = pre @ be16 (length (ps ! k)) @ (ps ! k) @ rest
            \<and> length pre = entry_offset ps k"
proof -
  have ps: "ps = take k ps @ (ps ! k) # drop (Suc k) ps"
    using assms by (simp add: id_take_nth_drop)
  let ?pre = "be16 (length ps) @ concat (map spec_entry (take k ps))"
  let ?rest = "concat (map spec_entry (drop (Suc k) ps))"
  have "concat (map spec_entry ps) =
          concat (map spec_entry (take k ps)) @ spec_entry (ps ! k) @ ?rest"
    by (subst ps) simp
  then have e: "spec_frame ps = ?pre @ be16 (length (ps ! k)) @ (ps ! k) @ ?rest"
    by (simp add: spec_frame_def spec_entry_def)
  have "length (concat (map spec_entry qs)) = sum_list (map (\<lambda>p. 2 + length p) qs)" for qs
    by (induction qs) (simp_all add: spec_entry_def length_be16)
  then have "length ?pre = entry_offset ps k"
    by (simp add: entry_offset_def length_be16)
  with e show ?thesis by blast
qed

lemma spec_frame_entry:
  assumes "k < length ps" and "length (ps ! k) < 65536"
  shows "unpack_int (spec_frame ps) (entry_offset ps k) (entry_offset ps k + 2) FmtH
           = Inr (length (ps ! k))
       \<and> slice (spec_frame ps) (entry_offset ps k + 2)
           (entry_offset ps k + 2 + length (ps ! k)) = ps ! k"
proof -
  from spec_frame_split_at [OF assms(1)] obtain pre rest where
    e: "spec_frame ps = pre @ be16 (length (ps ! k)) @ (ps ! k) @ rest"
    and l: "length pre = entry_offset ps k" by blast
  show ?thesis
    unfolding e l [symmetric]
    using unpack_prefix [OF assms(2)] slice_payload by simp
qed

text \<open>
  C3. A frame that is a big-endian 16-bit packet count \<open>N\<close> followed by \<open>N\<close> entries,
  each a big-endian 16-bit length and that many bytes, is split into exactly those \<open>N\<close>
  packets: the count read from the frame is \<open>N\<close>, packet \<open>k\<close> is the bytes right after
  its own length prefix, and the packet lengths sum to the frame length minus \<open>2 + 2N\<close>,
  so the split consumes the frame exactly.
\<close>

theorem split_packets_wellformed:
  assumes "length ps < 65536" and "\<forall>p \<in> set ps. length p < 65536"
  shows "split_packets (spec_frame ps) = Inr ps
       \<and> unpack_int (spec_frame ps) 0 2 FmtH = Inr (length ps)
       \<and> (\<forall>k < length ps.
            unpack_int (spec_frame ps) (entry_offset ps k) (entry_offset ps k + 2) FmtH
              = Inr (length (ps ! k))
          \<and> ps ! k = slice (spec_frame ps) (entry_offset ps k + 2)
                       (entry_offset ps k + 2 + length (ps ! k)))
       \<and> 2 + 2 * length ps \<le> length (spec_frame ps)
       \<and> sum_list (map length ps) = length (spec_frame ps) - 2 - 2 * length ps
       \<and> entry_offset ps (length ps) = length (spec_frame ps)"
proof -
  have a: "split_packets (spec_frame ps) = Inr ps"
    using assms by (rule split_packets_spec_frame)
  have b: "unpack_int (spec_frame ps) 0 2 FmtH = Inr (length ps)"
    using assms(1) by (rule spec_frame_count)
  have c: "\<forall>k < length ps.
            unpack_int (spec_frame ps) (entry_offset ps k) (entry_offset ps k + 2) FmtH
              = Inr (length (ps ! k))
          \<and> ps ! k = slice (spec_frame ps) (entry_offset ps k + 2)
                       (entry_offset ps k + 2 + length (ps ! k))"
  proof (intro allI impI)
    fix k assume k: "k < length ps"
    then have "length (ps ! k) < 65536" using assms(2) by simp
    from spec_frame_entry [OF k this]
    show "unpack_int (spec_frame ps) (entry_offset ps k) (entry_offset ps k + 2) FmtH
              = Inr (length (ps ! k))
          \<and> ps ! k = slice (spec_frame ps) (entry_offset ps k + 2)
                       (entry_offset ps k + 2 + length (ps ! k))"
      by simp
  qed
  have d: "length (spec_frame ps) = 2 + 2 * length ps + sum_list (map length ps)"
    by (rule length_spec_frame)
  have "sum_list (map (\<lambda>p. 2 + length p) qs) = 2 * length qs + sum_list (map length qs)"
    for qs :: "bytes list"
    by (induction qs) simp_all
  then have e: "entry_offset ps (length ps) = length (spec_frame ps)"
    by (simp add: entry_offset_def d)
  from a b c d e show ?thesis by simp
qed

theorem split_packets_wellformed_witness:
  "split_packets [0, 2, 0, 3, 7, 8, 9, 0, 1, 5] = Inr [[7, 8, 9], [5]]"
proof -
  have f: "spec_frame [[7, 8, 9], [5]] = [0, 2, 0, 3, 7, 8, 9, 0, 1, 5]"
    by (simp add: spec_frame_def spec_entry_def be16_def)
  have "length [[7, 8, 9], [5 :: byte]] < 65536" by simp
  moreover have "\<forall>p \<in> set [[7, 8, 9], [5 :: byte]]. length p < 65536" by simp
  ultimately show ?thesis
    using split_packets_wellformed [of "[[7, 8, 9], [5]]"] unfolding f by blast
qed

section \<open>The decoder never returns\<close>

lemma packet_header_short: "length packet < 4 \<Longrightarrow> packet_header packet = Inl StructError"
  by (simp add: packet_header_def unpack_int_def struct_unpack_def slice_def)

lemma packet_header_long: "4 \<le> length packet \<Longrightarrow> \<exists>h. packet_header packet = Inr h"
  by (simp add: packet_header_def unpack_int_def struct_unpack_def slice_def Let_def)

lemma parse_packet_unbound:
  "parse_packet None packet = (if 4 \<le> length packet then Inl NameError else Inl StructError)"
proof (cases "4 \<le> length packet")
  case True
  then obtain h where "packet_header packet = Inr h"
    using packet_header_long by blast
  with True show ?thesis by (simp add: parse_packet_def Let_def)
next
  case False
  then have "packet_header packet = Inl StructError"
    by (simp add: packet_header_short)
  with False show ?thesis by (simp add: parse_packet_def)
qed

lemma parse_binary_eq:
  "parse_binary bin =
     (case split_packets bin of
        Inl e \<Rightarrow> Inl StructError
      | Inr [] \<Rightarrow> Inl NameError
      | Inr (packet # rest) \<Rightarrow>
          if 4 \<le> length packet then Inl NameError else Inl StructError)"
proof (cases "split_packets bin")
  case (Inl e)
  then have "e = StructError" by (rule split_packets_error)
  with Inl show ?thesis by (simp add: parse_binary_def parse_binary_in_def)
next
  case (Inr packets)
  then show ?thesis
    by (cases packets)
       (simp_all add: parse_binary_def parse_binary_in_def module_d_def parse_packet_unbound)
qed

lemma split_packets_heartbeat: "length bin < 2 \<Longrightarrow> split_packets bin = Inr []"
  by (simp add: split_packets_def)

text \<open>
  C1, as amended. The decoder returns a tick list for no frame. It raises the error of
  the unbound name \<open>d\<close> exactly when the frame splits without error and its first
  packet, if there is one, has at least 4 bytes: at the first field write of the first
  packet, or at the final append when there is no packet. On every other frame a short
  read raises a struct error before \<open>d\<close> is reached.
\<close>

theorem parse_binary_always_raises:
  "(\<forall>ticks. parse_binary bin \<noteq> Inr ticks) \<and>
   parse_binary bin =
     (case split_packets bin of
        Inl e \<Rightarrow> Inl StructError
      | Inr [] \<Rightarrow> Inl NameError
      | Inr (packet # rest) \<Rightarrow>
          if 4 \<le> length packet then Inl NameError else Inl StructError)"
proof -
  have "\<forall>ticks. parse_binary bin \<noteq> Inr ticks"
    unfolding parse_binary_eq by (simp split: sum.splits list.splits)
  then show ?thesis using parse_binary_eq [of bin] by blast
qed

theorem parse_binary_always_raises_witness:
  "parse_binary [0, 1, 0, 4, 1, 2, 3, 4] = Inl NameError"
proof -
  have "split_packets [0, 1, 0, 4, 1, 2, 3, 4] = Inr [[1, 2, 3, 4]]"
    by (simp add: split_packets_def unpack_int_def struct_unpack_def slice_def be_value_def)
  then show ?thesis
    using parse_binary_always_raises [of "[0, 1, 0, 4, 1, 2, 3, 4]"] by simp
qed

text \<open>
  The frame \<open>00 01\<close> announces one packet and ends: the read of the packet's length
  prefix raises a struct error in the splitter, and the name \<open>d\<close> is never reached.
\<close>

theorem parse_binary_struct_error_counterexample:
  "parse_binary [0, 1] = Inl StructError \<and> parse_binary [0, 1] \<noteq> Inl NameError"
  by (simp add: parse_binary_def parse_binary_in_def split_packets_def unpack_int_def
      struct_unpack_def slice_def be_value_def)

text \<open>
  C2. On a frame shorter than 2 bytes the splitter returns no packet, and the decoder
  then raises the error of the unbound name \<open>d\<close> at the final append: it does not
  return the empty tick list.
\<close>

theorem parse_binary_heartbeat_raises:
  assumes "length bin < 2"
  shows "split_packets bin = Inr [] \<and> parse_binary bin = Inl NameError"
  using assms by (simp add: parse_binary_eq split_packets_heartbeat)

theorem parse_binary_heartbeat_raises_witness:
  "split_packets [] = Inr [] \<and> parse_binary [] = Inl NameError"
  using parse_binary_heartbeat_raises [of "[]"] by simp

section \<open>The head of a packet\<close>

lemma and_255: "(n::nat) AND 255 = n mod 256"
proof -
  have "n AND mask 8 = n mod 2 ^ 8"
    by (simp only: take_bit_eq_mask [symmetric] take_bit_eq_mod)
  then show ?thesis by (simp add: mask_eq_exp_minus_1)
qed


section \<open>The depth loop\<close>

lemma depth_entry_at_eq:
  "depth_entry_at packet dv p =
     (if p + 10 \<le> length packet then Inr (entry_of packet dv p) else Inl StructError)"
proof (cases "p + 10 \<le> length packet")
  case True
  then have "min 4 (length packet - p) = 4" "min 4 (length packet - (p + 4)) = 4"
    "min 2 (length packet - (p + 8)) = 2" by simp_all
  then show ?thesis using True
    by (simp add: depth_entry_at_def unpack_int_eq entry_of_def)
next
  case False
  then have "min 4 (length packet - p) \<noteq> 4 \<or> min 4 (length packet - (p + 4)) \<noteq> 4
    \<or> min 2 (length packet - (p + 8)) \<noteq> 2" by arith
  then show ?thesis using False
    by (auto simp add: depth_entry_at_def unpack_int_eq)
qed

lemma enumerate_list_eq: "enumerate_list xs = List.enumerate 0 xs"
  by (simp add: enumerate_list_def enumerate_eq_zip)

text \<open>
  The loop invariant when every slot has its 10 bytes: from index \<open>i\<close> on, the slots
  with an index below 5 extend \<open>buy\<close> and the others extend \<open>sell\<close>.
\<close>

lemma depth_loop_ok:
  assumes "\<forall>p \<in> set ps. p + 10 \<le> length packet"
  shows "depth_loop packet dv (List.enumerate i ps) dp =
           Inr \<lparr>buy = buy dp @ map (entry_of packet dv) (take (5 - i) ps),
                sell = sell dp @ map (entry_of packet dv) (drop (5 - i) ps)\<rparr>"
  using assms
proof (induction ps arbitrary: i dp)
  case Nil
  then show ?case by simp
next
  case (Cons p ps)
  have p: "depth_entry_at packet dv p = Inr (entry_of packet dv p)"
    using Cons.prems by (simp add: depth_entry_at_eq)
  have ih: "depth_loop packet dv (List.enumerate (Suc i) ps) dp' =
           Inr \<lparr>buy = buy dp' @ map (entry_of packet dv) (take (5 - Suc i) ps),
                sell = sell dp' @ map (entry_of packet dv) (drop (5 - Suc i) ps)\<rparr>" for dp'
    using Cons.prems by (intro Cons.IH) simp
  show ?case
  proof (cases "5 \<le> i")
    case True
    then show ?thesis by (simp add: p ih)
  next
    case False
    then have m: "5 - i = Suc (4 - i)" by simp
    show ?thesis using False by (simp add: p ih m)
  qed
qed

lemma depth_loop_fail:
  assumes "\<exists>p \<in> set ps. \<not> p + 10 \<le> length packet"
  shows "depth_loop packet dv (List.enumerate i ps) dp = Inl StructError"
  using assms
proof (induction ps arbitrary: i dp)
  case Nil
  then show ?case by simp
next
  case (Cons p ps)
  show ?case
  proof (cases "p + 10 \<le> length packet")
    case True
    then have "\<exists>q \<in> set ps. \<not> q + 10 \<le> length packet" using Cons.prems by auto
    then have "depth_loop packet dv (List.enumerate (Suc i) ps) dp' = Inl StructError" for dp'
      by (rule Cons.IH)
    then show ?thesis using True by (simp add: depth_entry_at_eq)
  next
    case False
    then show ?thesis by (simp add: depth_entry_at_eq)
  qed
qed

lemma market_depth_eq:
  "market_depth packet dv =
     (if \<forall>p \<in> set (py_range 64 (length packet) 12). p + 10 \<le> length packet
      then Inr \<lparr>buy = map (entry_of packet dv) (take 5 (py_range 64 (length packet) 12)),
                sell = map (entry_of packet dv) (drop 5 (py_range 64 (length packet) 12))\<rparr>
      else Inl StructError)"
proof -
  let ?offs = "py_range 64 (length packet) 12"
  have e: "market_depth packet dv =
             depth_loop packet dv (List.enumerate 0 ?offs) \<lparr>buy = [], sell = []\<rparr>"
    by (simp add: market_depth_def enumerate_list_eq)
  show ?thesis
  proof (cases "\<forall>p \<in> set ?offs. p + 10 \<le> length packet")
    case True
    from depth_loop_ok [OF True, of dv 0 "\<lparr>buy = [], sell = []\<rparr>"] True
    show ?thesis unfolding e by simp
  next
    case False
    then have "\<exists>p \<in> set ?offs. \<not> p + 10 \<le> length packet" by blast
    from depth_loop_fail [OF this, of dv 0 "\<lparr>buy = [], sell = []\<rparr>"] False
    show ?thesis unfolding e by simp
  qed
qed

section \<open>Frames that carry one packet\<close>

lemma parse_binary_single_packet:
  assumes "4 \<le> length packet" and "length packet < 65536"
  shows "split_packets (spec_frame [packet]) = Inr [packet]
       \<and> parse_binary (spec_frame [packet]) = Inl NameError"
proof -
  have "split_packets (spec_frame [packet]) = Inr [packet]"
    using assms(2) by (intro split_packets_spec_frame) simp_all
  then show ?thesis
    using assms(1) by (simp add: parse_binary_eq)
qed

text \<open>
  C4. The frame \<open>00 01 00 4C\<close> followed by one 76-byte packet with the instrument token
  1 and the raw price 15000 in the first depth slot is split into that packet, and the
  head of the loop body computes the segment 1 and the divisor 100. The decoder then
  raises the error of the unbound name \<open>d\<close> at the first field write, before the depth
  loop: it returns no tick, so no depth-entry price, here 15000 / 100, is produced.
\<close>

theorem parse_binary_no_price:
  "split_packets
     ([0, 1, 0, 76] @ [0, 0, 0, 1] @ replicate 60 0
        @ [0, 0, 0, 0, 0, 0, 58, 152, 0, 0, 0, 0])
     = Inr [[0, 0, 0, 1] @ replicate 60 0 @ [0, 0, 0, 0, 0, 0, 58, 152, 0, 0, 0, 0]]
   \<and> (case packet_header
             ([0, 0, 0, 1] @ replicate 60 0 @ [0, 0, 0, 0, 0, 0, 58, 152, 0, 0, 0, 0]) of
         Inl e \<Rightarrow> None
       | Inr h \<Rightarrow> Some (segment h, divisor h)) = Some (1, 100)
   \<and> parse_binary
       ([0, 1, 0, 76] @ [0, 0, 0, 1] @ replicate 60 0
          @ [0, 0, 0, 0, 0, 0, 58, 152, 0, 0, 0, 0])
     = Inl NameError"
proof -
  let ?P = "[0, 0, 0, 1] @ replicate 60 0 @ [0, 0, 0, 0, 0, 0, 58, 152, 0, 0, 0, 0 :: byte]"
  have f: "spec_frame [?P] = [0, 1, 0, 76] @ ?P"
    by (simp add: spec_frame_def spec_entry_def be16_def)
  have "4 \<le> length ?P" "length ?P < 65536" by simp_all
  from parse_binary_single_packet [OF this]
  have a: "split_packets ([0, 1, 0, 76] @ ?P) = Inr [?P]"
    and b: "parse_binary ([0, 1, 0, 76] @ ?P) = Inl NameError"
    unfolding f by simp_all
  have "slice ?P 0 4 = [0, 0, 0, 1]"
    by (simp add: slice_def)
  then have "unpack_int ?P 0 4 FmtI = Inr 1"
    by (simp add: unpack_int_def struct_unpack_def be_value_def)
  then have c: "(case packet_header ?P of Inl e \<Rightarrow> None
                 | Inr h \<Rightarrow> Some (segment h, divisor h)) = Some (1, 100)"
    by (simp add: packet_header_def Let_def and_255 EXCHANGE_MAP_def)
  from a b c show ?thesis by blast
qed



text \<open>
  C6. A packet of 64 bytes is shorter than 76 bytes and has no depth slot. The frame
  \<open>00 01 00 40\<close> followed by 64 zero bytes is split into that packet, and the decoder
  raises the error of the unbound name \<open>d\<close> at the first field write, before the depth
  loop: it does not yield a record with empty \<open>buy\<close> and \<open>sell\<close> lists.
\<close>

theorem parse_binary_short_packet_raises:
  "split_packets ([0, 1, 0, 64] @ replicate 64 0) = Inr [replicate 64 0]
   \<and> parse_binary ([0, 1, 0, 64] @ replicate 64 0) = Inl NameError"
proof -
  have f: "spec_frame [replicate 64 0] = [0, 1, 0, 64] @ replicate 64 0"
    by (simp add: spec_frame_def spec_entry_def be16_def)
  have "4 \<le> length (replicate 64 (0 :: byte))" "length (replicate 64 (0 :: byte)) < 65536"
    by simp_all
  from parse_binary_single_packet [OF this]
  show ?thesis
    unfolding f by simp
qed

section \<open>The pong watchdog\<close>

lemma loop_pong_check_dropped:
  "fst (loop_pong_check now st) \<longleftrightarrow>
     (\<exists>t. last_pong_time st = Some t \<and> t \<noteq> 0 \<and> now - t > 2 * PING_INTERVAL)"
  by (cases "last_pong_time st") (simp_all add: loop_pong_check_def truthy_def Let_def)

text \<open>
  C8. Clock readings are seconds since the epoch, so a recorded pong time is not 0.
  Then a run of the watchdog aborts the connection exactly when a pong time is recorded
  and the clock is more than \<open>2 * PING_INTERVAL\<close> = 5 seconds past it; with no pong
  recorded, as in a new protocol object, it does not abort; the watchdog leaves the
  recorded pong time as it is, and a pong records the current time.
\<close>

theorem pong_watchdog_aborts_iff:
  assumes "last_pong_time st \<noteq> Some 0"
  shows "(fst (loop_pong_check now st) \<longleftrightarrow>
            (\<exists>t. last_pong_time st = Some t \<and> now - t > 2 * PING_INTERVAL))
       \<and> PING_INTERVAL = 2.5
       \<and> (last_pong_time st = None \<longrightarrow> \<not> fst (loop_pong_check now st))
       \<and> \<not> fst (loop_pong_check now new_protocol)
       \<and> last_pong_time (snd (loop_pong_check now st)) = last_pong_time st
       \<and> last_pong_time (onPong now st) = Some now"
proof -
  have a: "fst (loop_pong_check now st) \<longleftrightarrow>
            (\<exists>t. last_pong_time st = Some t \<and> now - t > 2 * PING_INTERVAL)"
    using assms unfolding loop_pong_check_dropped by auto
  have b: "last_pong_time st = None \<longrightarrow> \<not> fst (loop_pong_check now st)"
    unfolding loop_pong_check_dropped by simp
  have c: "\<not> fst (loop_pong_check now new_protocol)"
    unfolding loop_pong_check_dropped by (simp add: new_protocol_def)
  have d: "last_pong_time (snd (loop_pong_check now st)) = last_pong_time st"
    by (simp add: loop_pong_check_def Let_def)
  have e: "last_pong_time (onPong now st) = Some now"
    by (simp add: onPong_def)
  from a b c d e show ?thesis by (simp add: PING_INTERVAL_def)
qed

theorem pong_watchdog_aborts_iff_witness:
  "fst (loop_pong_check 105.5 (onPong 100 new_protocol))
   \<and> \<not> fst (loop_pong_check 105 (onPong 100 new_protocol))"
proof -
  have t: "last_pong_time (onPong 100 new_protocol) = Some 100"
    by (simp add: onPong_def)
  then have n: "last_pong_time (onPong 100 new_protocol) \<noteq> Some 0"
    by simp
  show ?thesis
    using pong_watchdog_aborts_iff [OF n, of "105.5"] pong_watchdog_aborts_iff [OF n, of 105]
    by (simp add: t)
qed

section \<open>Subscription requests\<close>



text \<open>
  What the clause \<open>except\<close> leaves behind: with no connection the send's error is
  re-raised; with a connection the error of the close call, when it raises, reaches the
  caller instead, and no close goes through.
\<close>

lemma except_clause_eq:
  "except_clause st e sent =
     (case ws st of
        None \<Rightarrow> (Raised e, sent)
      | Some c \<Rightarrow>
          (case sendClose_raises c None (Some e) of
             Some e' \<Rightarrow> (Raised e', sent)
           | None \<Rightarrow> (Raised e, sent @ [SendClose None (Some e)])))"
  by (simp add: except_clause_def close_ws_def split: option.splits)

lemma send_request_first_raises:
  assumes "task st \<in> set [''mw'', ''sfi'', ''dp'']"
    and "sendMessage st (cn_request st) = Some e"
  shows "send_request st token = except_clause st e []
       \<and> frames_sent (snd (send_request st token)) = []
       \<and> (\<exists>e'. fst (send_request st token) = Raised e')"
  using assms
  by (simp add: send_request_def except_clause_eq split: option.splits)

lemma send_request_second_raises:
  assumes "task st \<in> set [''mw'', ''sfi'', ''dp'']"
    and "sendMessage st (cn_request st) = None"
    and "sendMessage st (task_request st token) = Some e"
  shows "send_request st token = except_clause st e [SendMessage (cn_request st)]
       \<and> frames_sent (snd (send_request st token)) = [cn_request st]
       \<and> (\<exists>e'. fst (send_request st token) = Raised e')"
  using assms
  by (simp add: send_request_def except_clause_eq split: option.splits)




section \<open>Text frames\<close>

lemma decode_text_zlib_error:
  "zlib_decompress lib data = Inl e \<Longrightarrow> decode_text lib data = Inl e"
  by (simp add: decode_text_def)

text \<open>A failure of the parse stage is a \<open>ValueError\<close>: the frame is dropped.\<close>

lemma parse_text_message_json_error:
  assumes "utf8_decode lib payload = Inr str" and "b64decode lib str = Inr data"
    and "decode_text lib data = Inl JSONDecodeError"
  shows "parse_text_message lib st True payload = (Returned (), [])"
  using assms by (simp add: parse_text_message_def)

text \<open>
  C9. A text frame goes through the UTF-8 and base64 decoders and then the
  decompressor. When the decompressor raises \<open>zlib.error\<close> the handler does not
  return: the error is not a \<open>ValueError\<close>, the \<open>except\<close> clause does not catch it, and
  it is raised to the caller of the handler. The callback is not invoked.
\<close>

theorem parse_text_message_zlib_error:
  assumes "utf8_decode lib payload = Inr str"
    and "b64decode lib str = Inr data"
    and "zlib_decompress lib data = Inl ZlibError"
  shows "parse_text_message lib st True payload = (Raised ZlibError, [])"
  using assms by (simp add: parse_text_message_def decode_text_zlib_error)

theorem parse_text_message_zlib_error_witness:
  "parse_text_message
     \<lparr>utf8_decode = (\<lambda>b. Inr (map unat b)), utf8_encode = map of_nat,
      b64decode = (\<lambda>s. if s = [65, 65, 65, 65] then Inr [0, 0, 0] else Inl BinasciiError),
      zlib_decompress = (\<lambda>b. Inl ZlibError),
      json_loads = (\<lambda>s. Inl JSONDecodeError), json_dumps = (\<lambda>j :: unit. [])\<rparr>
     \<lparr>task = ''mw'', feed_token = ''F'', client_code = ''C'',
      ws = None, on_message = False, on_ticks = True\<rparr>
     True [65, 65, 65, 65]
   = (Raised ZlibError, [])"
  by (rule parse_text_message_zlib_error [where str = "[65, 65, 65, 65]" and data = "[0, 0, 0]"])
     simp_all

section \<open>The dispatcher\<close>

lemma parse_text_message_events:
  "DecodeBinary p \<notin> set (snd (parse_text_message lib st b payload))"
  by (simp add: parse_text_message_def split: sum.splits)

lemma on_message_handler_binary:
  "on_message_handler lib st b payload True =
     (if on_ticks st \<and> 4 < length payload then
        (case parse_binary payload of
           Inl e \<Rightarrow>
             (Raised e, (if on_message st then [OnMessageCb payload True] else [])
                        @ [DecodeBinary payload])
         | Inr ticks \<Rightarrow>
             (Returned (), (if on_message st then [OnMessageCb payload True] else [])
                        @ [DecodeBinary payload, OnTicksBinary ticks]))
      else (Returned (), if on_message st then [OnMessageCb payload True] else []))"
  by (simp add: on_message_handler_def Let_def split: sum.splits)

lemma on_message_handler_text:
  "on_message_handler lib st b payload False =
     (fst (parse_text_message lib st b payload),
      (if on_message st then [OnMessageCb payload False] else [])
        @ [DecodeText payload] @ snd (parse_text_message lib st b payload))"
  by (simp add: on_message_handler_def Let_def split: prod.splits)

text \<open>
  C10. On a binary frame of at most 4 bytes the dispatcher only calls the
  \<open>on_message\<close> callback, when it is set, and returns: it calls neither the binary
  decoder nor \<open>on_ticks\<close>. The binary decoder is called exactly when the frame is
  binary, longer than 4 bytes and an \<open>on_ticks\<close> callback is set, and then on the
  frame's payload.
\<close>

theorem on_message_short_binary:
  "(length payload \<le> 4 \<longrightarrow>
      on_message_handler lib st b payload True =
        (Returned (), if on_message st then [OnMessageCb payload True] else []))
   \<and> ((\<exists>p. DecodeBinary p \<in> set (snd (on_message_handler lib st b payload is_binary)))
        \<longleftrightarrow> is_binary \<and> 4 < length payload \<and> on_ticks st)
   \<and> (DecodeBinary p \<in> set (snd (on_message_handler lib st b payload is_binary))
        \<longrightarrow> p = payload)"
proof (cases is_binary)
  case True
  have a: "length payload \<le> 4 \<longrightarrow>
      on_message_handler lib st b payload True =
        (Returned (), if on_message st then [OnMessageCb payload True] else [])"
    by (simp add: on_message_handler_binary)
  have "(\<exists>p. DecodeBinary p \<in> set (snd (on_message_handler lib st b payload True)))
        \<longleftrightarrow> 4 < length payload \<and> on_ticks st"
    by (cases "parse_binary payload") (auto simp add: on_message_handler_binary)
  moreover have "DecodeBinary p \<in> set (snd (on_message_handler lib st b payload True))
        \<longrightarrow> p = payload"
    by (cases "parse_binary payload")
       (auto simp add: on_message_handler_binary split: if_splits)
  ultimately show ?thesis using a True by simp
next
  case False
  have a: "length payload \<le> 4 \<longrightarrow>
      on_message_handler lib st b payload True =
        (Returned (), if on_message st then [OnMessageCb payload True] else [])"
    by (simp add: on_message_handler_binary)
  have "DecodeBinary q \<notin> set (snd (on_message_handler lib st b payload False))" for q
    using parse_text_message_events [of q lib st b payload]
    by (simp add: on_message_handler_text)
  then show ?thesis using a False by simp
qed

theorem on_message_short_binary_witness:
  "on_message_handler
     \<lparr>utf8_decode = (\<lambda>b. Inr (map unat b)), utf8_encode = map of_nat,
      b64decode = (\<lambda>s. Inl BinasciiError),
      zlib_decompress = (\<lambda>b. Inl ZlibError),
      json_loads = (\<lambda>s. Inl JSONDecodeError), json_dumps = (\<lambda>j :: unit. [])\<rparr>
     \<lparr>task = ''mw'', feed_token = ''F'', client_code = ''C'',
      ws = None, on_message = True, on_ticks = True\<rparr>
     True [0, 1, 0, 0] True
   = (Returned (), [OnMessageCb [0, 1, 0, 0] True])"
  using on_message_short_binary
    [of "[0, 1, 0, 0]"
        "\<lparr>utf8_decode = (\<lambda>b. Inr (map unat b)), utf8_encode = map of_nat,
          b64decode = (\<lambda>s. Inl BinasciiError),
          zlib_decompress = (\<lambda>b. Inl ZlibError),
          json_loads = (\<lambda>s. Inl JSONDecodeError), json_dumps = (\<lambda>j :: unit. [])\<rparr>"
        "\<lparr>task = ''mw'', feed_token = ''F'', client_code = ''C'',
          ws = None, on_message = True, on_ticks = True\<rparr>"
        True]
  by simp


end
